theory Spec2Isabelle
  imports Main "HOL-Library.AList" "HOL-Library.Multiset"
begin

section \<open>Tables\<close>

text \<open>
  A pandas table is modelled by its column labels, in order, and its rows. A row maps a
  column label to the cell's text; \<open>None\<close> is a missing cell (NaN), which is also what
  a row holds under a label its table does not have.
\<close>

type_synonym row = "string \<Rightarrow> string option"

record DataFrame =
  columns :: "string list"
  rows :: "row list"

text \<open>\<^verbatim>\<open>pd.DataFrame()\<close>: no column and no row.\<close>

definition pd_DataFrame :: DataFrame where
  "pd_DataFrame = \<lparr>columns = [], rows = []\<rparr>"

text \<open>\<^verbatim>\<open>df.empty\<close>: one of the two axes has length 0.\<close>

definition df_empty :: "DataFrame \<Rightarrow> bool" where
  "df_empty df \<longleftrightarrow> columns df = [] \<or> rows df = []"

text \<open>\<^verbatim>\<open>df[label]\<close> as the list of its cells, top to bottom.\<close>

definition col :: "DataFrame \<Rightarrow> string \<Rightarrow> string option list" where
  "col df label = map (\<lambda>r. r label) (rows df)"

text \<open>\<^verbatim>\<open>Series.dropna()\<close>: the present cells, in order.\<close>

fun dropna :: "'a option list \<Rightarrow> 'a list" where
  "dropna [] = []"
| "dropna (None # xs) = dropna xs"
| "dropna (Some x # xs) = x # dropna xs"

text \<open>
  Keeping the first row of every key, in order: \<open>seen\<close> holds the keys met so far. This is
  \<^verbatim>\<open>drop_duplicates(keep='first')\<close> on rows and \<^verbatim>\<open>Series.unique()\<close> on values.
\<close>

fun keep_first :: "('a \<Rightarrow> 'k) \<Rightarrow> 'k list \<Rightarrow> 'a list \<Rightarrow> 'a list" where
  "keep_first key seen [] = []"
| "keep_first key seen (x # xs) =
     (if key x \<in> set seen then keep_first key seen xs
      else x # keep_first key (key x # seen) xs)"

definition unique :: "'a list \<Rightarrow> 'a list" where
  "unique xs = keep_first (\<lambda>x. x) [] xs"

text \<open>
  \<^verbatim>\<open>pd.DataFrame(data)\<close> for a dictionary of equally long cell lists: one column per
  key, in the dictionary's order, and row \<open>i\<close> holds the \<open>i\<close>-th cell of every list.
\<close>

definition DataFrame_of :: "(string \<times> string list) list \<Rightarrow> DataFrame" where
  "DataFrame_of data =
     \<lparr>columns = map fst data,
      rows = map (\<lambda>i label. map_option (\<lambda>cells. cells ! i) (map_of data label))
               [0 ..< (case data of [] \<Rightarrow> 0 | (label, cells) # _ \<Rightarrow> length cells)]\<rparr>"

section \<open>Python values\<close>

datatype error = ZeroDivisionError | KeyError

text \<open>\<^verbatim>\<open>xs[:n]\<close>: a negative bound counts from the end.\<close>

definition slice_to :: "'a list \<Rightarrow> int \<Rightarrow> 'a list" where
  "slice_to xs n = (if 0 \<le> n then take (nat n) xs else take (nat (int (length xs) + n)) xs)"

text \<open>\<^verbatim>\<open>sep.join(xs)\<close>.\<close>

fun join :: "string \<Rightarrow> string list \<Rightarrow> string" where
  "join sep [] = []"
| "join sep [x] = x"
| "join sep (x # y # ys) = x @ sep @ join sep (y # ys)"

text \<open>
  A dictionary from day label to course list, in insertion order: storing under a label
  that is present replaces its value in place, storing under a new one appends it.
\<close>

type_synonym schedule = "(string \<times> string list) list"

text \<open>\<^verbatim>\<open>{day: [] for day in exam_days}\<close>.\<close>

definition new_schedule :: "string list \<Rightarrow> schedule" where
  "new_schedule exam_days = fold (\<lambda>day d. AList.update day [] d) exam_days []"

text \<open>\<^verbatim>\<open>sched[day].append(c)\<close>; a label that is not a key raises.\<close>

definition append_course :: "string \<Rightarrow> string \<Rightarrow> schedule \<Rightarrow> error + schedule" where
  "append_course day c sched =
     (case map_of sched day of
        None \<Rightarrow> Inl KeyError
      | Some courses \<Rightarrow> Inr (AList.update day (courses @ [c]) sched))"

section \<open>schedule\_exams\<close>

definition exam_days_all :: "string list" where
  "exam_days_all =
     [''Saturday'', ''Monday'', ''Tuesday'', ''Wednesday'', ''Thursday'', ''Friday'', ''Monday'']"

text \<open>
  One session loop of a day, \<^verbatim>\<open>for i in range(count): if course_idx < total_courses: ...\<close>,
  on the session's dictionary and the shared cursor.
\<close>

fun assign_session ::
  "nat \<Rightarrow> string \<Rightarrow> string list \<Rightarrow> schedule \<Rightarrow> nat \<Rightarrow> error + (schedule \<times> nat)" where
  "assign_session 0 day course_list sched course_idx = Inr (sched, course_idx)"
| "assign_session (Suc n) day course_list sched course_idx =
     (if course_idx < length course_list then
        (case append_course day (course_list ! course_idx) sched of
           Inl e \<Rightarrow> Inl e
         | Inr sched' \<Rightarrow> assign_session n day course_list sched' (course_idx + 1))
      else assign_session n day course_list sched course_idx)"

text \<open>The number of courses of the day at position \<open>day_idx\<close>, given the cursor.\<close>

definition courses_this_day :: "nat \<Rightarrow> nat \<Rightarrow> nat \<Rightarrow> nat \<Rightarrow> nat \<Rightarrow> nat" where
  "courses_this_day courses_per_day_base extra_courses total_courses day_idx course_idx =
     (let n = courses_per_day_base;
          n = (if day_idx < extra_courses then n + 1 else n)
      in if course_idx < total_courses \<and> n = 0 then 1 else n)"

definition fn_count :: "nat \<Rightarrow> nat" where
  "fn_count n = (n + 1) div 2"

definition an_count :: "nat \<Rightarrow> nat" where
  "an_count n = n - fn_count n"

text \<open>The loop state: the two dictionaries and the cursor into the course list.\<close>

type_synonym dist_state = "schedule \<times> schedule \<times> nat"

text \<open>The body of the loop over \<^verbatim>\<open>enumerate(exam_days)\<close>.\<close>

fun day_step ::
  "nat \<Rightarrow> nat \<Rightarrow> string list \<Rightarrow> nat \<times> string \<Rightarrow> dist_state \<Rightarrow> error + dist_state" where
  "day_step courses_per_day_base extra_courses course_list (day_idx, day)
     (fn_schedule, an_schedule, course_idx) =
     (let n = courses_this_day courses_per_day_base extra_courses (length course_list)
                day_idx course_idx
      in (case assign_session (fn_count n) day course_list fn_schedule course_idx of
            Inl e \<Rightarrow> Inl e
          | Inr (fn_schedule', course_idx') \<Rightarrow>
              (case assign_session (an_count n) day course_list an_schedule course_idx' of
                 Inl e \<Rightarrow> Inl e
               | Inr (an_schedule', course_idx'') \<Rightarrow>
                   Inr (fn_schedule', an_schedule', course_idx''))))"

fun days_loop ::
  "nat \<Rightarrow> nat \<Rightarrow> string list \<Rightarrow> (nat \<times> string) list \<Rightarrow> dist_state \<Rightarrow> error + dist_state" where
  "days_loop b e course_list [] st = Inr st"
| "days_loop b e course_list (p # ps) st =
     (case day_step b e course_list p st of
        Inl err \<Rightarrow> Inl err
      | Inr st' \<Rightarrow> days_loop b e course_list ps st')"

text \<open>
  The distribution of a shuffled, non-empty course list: the day labels, the two
  dictionaries, the base and the remainder (division by the number of days raises when
  there is none), then the loop from cursor 0.
\<close>

definition distribute ::
  "string list \<Rightarrow> string list \<Rightarrow> error + dist_state" where
  "distribute course_list exam_days =
     (let total_courses = length course_list;
          fn_schedule = new_schedule exam_days;
          an_schedule = new_schedule exam_days
      in if length exam_days = 0 then Inl ZeroDivisionError
         else
           let courses_per_day_base = total_courses div length exam_days;
               extra_courses = total_courses mod length exam_days
           in days_loop courses_per_day_base extra_courses course_list
                (enumerate 0 exam_days) (fn_schedule, an_schedule, 0))"

text \<open>
  The one-row table of a session: for every day of \<open>exam_days\<close>, in order, the day's
  courses joined by a comma, stored under the day's label. Course codes are texts, so
  \<^verbatim>\<open>str(c)\<close> is the code itself.
\<close>

definition session_data :: "string list \<Rightarrow> schedule \<Rightarrow> (string \<times> string list) list" where
  "session_data exam_days sched =
     fold (\<lambda>day data.
             let courses = (case map_of sched day of None \<Rightarrow> [] | Some cs \<Rightarrow> cs)
             in if courses \<noteq> [] then AList.update day [join '', '' courses] data
                else AList.update day [''''] data)
          exam_days []"

text \<open>
  \<^verbatim>\<open>schedule_exams(courses_df, num_days)\<close>. \<open>shuffle\<close> stands for
  \<^verbatim>\<open>random.shuffle\<close>: the order it leaves the list in.
\<close>

definition schedule_exams ::
  "(string list \<Rightarrow> string list) \<Rightarrow> DataFrame \<Rightarrow> int \<Rightarrow> error + (DataFrame \<times> DataFrame)" where
  "schedule_exams shuffle courses_df num_days =
     (if df_empty courses_df then Inr (pd_DataFrame, pd_DataFrame)
      else if ''Course Code'' \<notin> set (columns courses_df) then Inr (pd_DataFrame, pd_DataFrame)
      else
        let course_list = shuffle (unique (dropna (col courses_df ''Course Code'')))
        in if length course_list = 0 then Inr (pd_DataFrame, pd_DataFrame)
           else
             let exam_days = slice_to exam_days_all num_days
             in (case distribute course_list exam_days of
                   Inl e \<Rightarrow> Inl e
                 | Inr (fn_schedule, an_schedule, course_idx) \<Rightarrow>
                     Inr (DataFrame_of (session_data exam_days fn_schedule),
                          DataFrame_of (session_data exam_days an_schedule))))"

section \<open>Observing the distribution\<close>

text \<open>Every course of a session dictionary, bucket after bucket in key order.\<close>

definition assigned :: "schedule \<Rightarrow> string list" where
  "assigned sched = concat (map snd sched)"

text \<open>The courses stored under a day label; none when the label is not a key.\<close>

definition bucket :: "schedule \<Rightarrow> string \<Rightarrow> string list" where
  "bucket sched day = (case map_of sched day of None \<Rightarrow> [] | Some cs \<Rightarrow> cs)"

text \<open>The share of the day at position \<open>i\<close>: the base, and one more for the first \<open>e\<close> days.\<close>

definition alloc :: "nat \<Rightarrow> nat \<Rightarrow> nat \<Rightarrow> nat" where
  "alloc b e i = b + (if i < e then 1 else 0)"

text \<open>The cursor after \<open>i\<close> days that each took their share.\<close>

definition cursor_at :: "nat \<Rightarrow> nat \<Rightarrow> nat \<Rightarrow> nat" where
  "cursor_at b e i = i * b + min i e"

text \<open>The loop state of \<open>distribute\<close> after its first \<open>i\<close> iterations.\<close>

definition loop_prefix :: "string list \<Rightarrow> string list \<Rightarrow> nat \<Rightarrow> error + dist_state" where
  "loop_prefix course_list exam_days i =
     days_loop (length course_list div length exam_days) (length course_list mod length exam_days)
       course_list (take i (enumerate 0 exam_days))
       (new_schedule exam_days, new_schedule exam_days, 0)"

text \<open>The number of courses that iteration \<open>i\<close> of the loop appends to the two dictionaries.\<close>

definition courses_received :: "string list \<Rightarrow> string list \<Rightarrow> nat \<Rightarrow> nat option" where
  "courses_received course_list exam_days i =
     (case loop_prefix course_list exam_days i of
        Inl err \<Rightarrow> None
      | Inr (fn, an, idx) \<Rightarrow>
          (case loop_prefix course_list exam_days (Suc i) of
             Inl err \<Rightarrow> None
           | Inr (fn', an', idx') \<Rightarrow>
               Some ((length (assigned fn') + length (assigned an')) -
                     (length (assigned fn) + length (assigned an)))))"

text \<open>The number of courses that iteration \<open>i\<close> appends to the forenoon bucket of its day.\<close>

definition fn_received :: "string list \<Rightarrow> string list \<Rightarrow> nat \<Rightarrow> nat option" where
  "fn_received course_list exam_days i =
     (case loop_prefix course_list exam_days i of
        Inl err \<Rightarrow> None
      | Inr (fn, an, idx) \<Rightarrow>
          (case loop_prefix course_list exam_days (Suc i) of
             Inl err \<Rightarrow> None
           | Inr (fn', an', idx') \<Rightarrow>
               Some (length (bucket fn' (exam_days ! i)) - length (bucket fn (exam_days ! i)))))"

text \<open>The number of courses that iteration \<open>i\<close> appends to the afternoon bucket of its day.\<close>

definition an_received :: "string list \<Rightarrow> string list \<Rightarrow> nat \<Rightarrow> nat option" where
  "an_received course_list exam_days i =
     (case loop_prefix course_list exam_days i of
        Inl err \<Rightarrow> None
      | Inr (fn, an, idx) \<Rightarrow>
          (case loop_prefix course_list exam_days (Suc i) of
             Inl err \<Rightarrow> None
           | Inr (fn', an', idx') \<Rightarrow>
               Some (length (bucket an' (exam_days ! i)) - length (bucket an (exam_days ! i)))))"

text \<open>A table with the single column \<^verbatim>\<open>Course Code\<close> and one row per given code.\<close>

definition courses_table :: "string list \<Rightarrow> DataFrame" where
  "courses_table codes =
     \<lparr>columns = [''Course Code''], rows = map (\<lambda>c. [''Course Code'' \<mapsto> c]) codes\<rparr>"

section \<open>The aggregator\<close>

text \<open>
  The configuration constants of the module (\<^verbatim>\<open>config\<close>) and the three operations of
  \<^verbatim>\<open>ExcelLoader\<close> that the aggregator calls are parameters: the semester and department
  lists, the two session names, and the loader's tables for a semester, its parsed table
  and its split of a department's courses into the two sessions.
\<close>

record config =
  TARGET_SEMESTERS :: "string list"
  DEPARTMENTS :: "string list"
  PRE_MID :: string
  POST_MID :: string

record excel_loader =
  get_semester_courses :: "string \<Rightarrow> DataFrame"
  parse_ltpsc :: "DataFrame \<Rightarrow> DataFrame"
  divide_courses_by_session :: "DataFrame \<Rightarrow> string \<Rightarrow> DataFrame \<Rightarrow> DataFrame \<times> DataFrame"

text \<open>\<^verbatim>\<open>Series.astype(str)\<close> on a cell: a missing cell becomes the text \<^verbatim>\<open>nan\<close>.\<close>

definition astype_str :: "string option \<Rightarrow> string" where
  "astype_str c = (case c of None \<Rightarrow> ''nan'' | Some s \<Rightarrow> s)"

text \<open>
  \<^verbatim>\<open>str.contains(f"^{department}$", regex=True)\<close> on one text, for a department name
  without regular-expression metacharacters: the search succeeds when the text starts
  with the name and \<^verbatim>\<open>$\<close> matches what is left. Python's \<^verbatim>\<open>$\<close> matches at the end of
  the text and also just before a line feed that ends it.
\<close>

definition dollar_matches :: "string \<Rightarrow> bool" where
  "dollar_matches rest \<longleftrightarrow> rest = [] \<or> rest = [CHR 0x0A]"

definition contains_anchored :: "string \<Rightarrow> string \<Rightarrow> bool" where
  "contains_anchored department s \<longleftrightarrow>
     take (length department) s = department \<and> dollar_matches (drop (length department) s)"

text \<open>\<^verbatim>\<open>df[mask].copy()\<close>: the rows the mask selects, under the same columns.\<close>

definition select_rows :: "(row \<Rightarrow> bool) \<Rightarrow> DataFrame \<Rightarrow> DataFrame" where
  "select_rows dept_mask df = \<lparr>columns = columns df, rows = filter dept_mask (rows df)\<rparr>"

text \<open>\<^verbatim>\<open>df[label] = v\<close>: every row gets the value; a new label is added last.\<close>

definition set_column :: "string \<Rightarrow> string \<Rightarrow> DataFrame \<Rightarrow> DataFrame" where
  "set_column label v df =
     \<lparr>columns = (if label \<in> set (columns df) then columns df else columns df @ [label]),
      rows = map (\<lambda>r. r(label \<mapsto> v)) (rows df)\<rparr>"

text \<open>
  \<^verbatim>\<open>pd.concat(tables, ignore_index=True)\<close>: the columns of all tables in order of first
  appearance, the rows of all tables in order; a row is missing under the columns its
  own table does not have.
\<close>

definition pd_concat :: "DataFrame list \<Rightarrow> DataFrame" where
  "pd_concat dfs =
     \<lparr>columns = unique (concat (map columns dfs)),
      rows = concat (map (\<lambda>df. map (\<lambda>r. r |` set (columns df)) (rows df)) dfs)\<rparr>"

text \<open>\<^verbatim>\<open>df.drop_duplicates(subset=[label], keep='first')\<close>.\<close>

definition drop_duplicates :: "string \<Rightarrow> DataFrame \<Rightarrow> DataFrame" where
  "drop_duplicates label df =
     \<lparr>columns = columns df, rows = keep_first (\<lambda>r. r label) [] (rows df)\<rparr>"

text \<open>The courses of a department in the parsed table of a semester.\<close>

definition department_courses :: "string \<Rightarrow> DataFrame \<Rightarrow> DataFrame" where
  "department_courses department sem_courses_parsed =
     (if ''Department'' \<in> set (columns sem_courses_parsed) then
        select_rows (\<lambda>r. contains_anchored department (astype_str (r ''Department'')))
          sem_courses_parsed
      else sem_courses_parsed)"

text \<open>
  The two collectors differ in the half of the loader's split they take (\<open>pick\<close>) and in
  the session name of the label. The loop over the departments appends to the list of
  tables collected so far.
\<close>

fun departments_loop ::
  "excel_loader \<Rightarrow> (DataFrame \<times> DataFrame \<Rightarrow> DataFrame) \<Rightarrow> string \<Rightarrow> string \<Rightarrow> DataFrame \<Rightarrow>
   string list \<Rightarrow> DataFrame list \<Rightarrow> DataFrame list" where
  "departments_loop L pick session semester sem_courses_parsed [] all_courses = all_courses"
| "departments_loop L pick session semester sem_courses_parsed (department # rest) all_courses =
     (let dept_courses = department_courses department sem_courses_parsed
      in if df_empty dept_courses then
           departments_loop L pick session semester sem_courses_parsed rest all_courses
         else
           let session_courses =
                 pick (divide_courses_by_session L dept_courses department sem_courses_parsed)
           in if \<not> df_empty session_courses then
                departments_loop L pick session semester sem_courses_parsed rest
                  (all_courses @
                   [set_column ''Dept_Session'' (department @ ''_'' @ session)
                      (set_column ''Semester'' semester session_courses)])
              else departments_loop L pick session semester sem_courses_parsed rest all_courses)"

fun semesters_loop ::
  "excel_loader \<Rightarrow> (DataFrame \<times> DataFrame \<Rightarrow> DataFrame) \<Rightarrow> string \<Rightarrow> string list \<Rightarrow>
   string list \<Rightarrow> DataFrame list \<Rightarrow> DataFrame list" where
  "semesters_loop L pick session departments [] all_courses = all_courses"
| "semesters_loop L pick session departments (semester # rest) all_courses =
     (let sem_courses_all = get_semester_courses L semester
      in if df_empty sem_courses_all then
           semesters_loop L pick session departments rest all_courses
         else
           let sem_courses_parsed = parse_ltpsc L sem_courses_all
           in if df_empty sem_courses_parsed then
                semesters_loop L pick session departments rest all_courses
              else
                semesters_loop L pick session departments rest
                  (departments_loop L pick session semester sem_courses_parsed departments
                     all_courses))"

text \<open>The list of tagged tables when the loops are over.\<close>

definition collected_tables ::
  "excel_loader \<Rightarrow> config \<Rightarrow> (DataFrame \<times> DataFrame \<Rightarrow> DataFrame) \<Rightarrow> string \<Rightarrow> DataFrame list" where
  "collected_tables L C pick session =
     semesters_loop L pick session (DEPARTMENTS C) (TARGET_SEMESTERS C) []"

definition get_all_session_courses ::
  "excel_loader \<Rightarrow> config \<Rightarrow> (DataFrame \<times> DataFrame \<Rightarrow> DataFrame) \<Rightarrow> string \<Rightarrow> DataFrame" where
  "get_all_session_courses L C pick session =
     (let all_courses = collected_tables L C pick session
      in if all_courses = [] then pd_DataFrame
         else
           let all_df = pd_concat all_courses
           in if ''Course Code'' \<in> set (columns all_df) then drop_duplicates ''Course Code'' all_df
              else all_df)"

definition get_all_pre_mid_courses :: "excel_loader \<Rightarrow> config \<Rightarrow> DataFrame" where
  "get_all_pre_mid_courses L C = get_all_session_courses L C fst (PRE_MID C)"



section \<open>Sample catalogs\<close>

text \<open>
  One semester, the departments CS and EE. The loader's parser returns its table and its
  split puts every course of a department in the first session.
\<close>

definition sample_config :: config where
  "sample_config =
     \<lparr>TARGET_SEMESTERS = [''1''], DEPARTMENTS = [''CS'', ''EE''],
      PRE_MID = ''Pre-Mid'', POST_MID = ''Post-Mid''\<rparr>"

definition loader_of :: "DataFrame \<Rightarrow> excel_loader" where
  "loader_of table =
     \<lparr>get_semester_courses = (\<lambda>semester. table),
      parse_ltpsc = (\<lambda>df. df),
      divide_courses_by_session = (\<lambda>dept_courses department all_sem_courses.
        (dept_courses, pd_DataFrame))\<rparr>"


text \<open>A department cell that ends with a line feed, and the department CSE.\<close>

definition line_feed_table :: DataFrame where
  "line_feed_table =
     \<lparr>columns = [''Course Code'', ''Department''],
      rows = [[''Course Code'' \<mapsto> ''X1'', ''Department'' \<mapsto> ''CS'' @ [CHR 0x0A]],
              [''Course Code'' \<mapsto> ''X2'', ''Department'' \<mapsto> ''CSE''],
              [''Course Code'' \<mapsto> ''X3'', ''Department'' \<mapsto> ''CS'']]\<rparr>"

text \<open>Two rows without identifier around one with; no department column.\<close>

definition missing_code_table :: DataFrame where
  "missing_code_table =
     \<lparr>columns = [''Course Code'', ''Name''],
      rows = [[''Name'' \<mapsto> ''Algebra''],
              [''Course Code'' \<mapsto> ''MA101'', ''Name'' \<mapsto> ''Calculus''],
              [''Name'' \<mapsto> ''Logic'']]\<rparr>"

section \<open>The session loops and the day loop\<close>

lemma assign_session_eq:
  "map_of sched day = Some cs \<Longrightarrow>
   assign_session n day cl sched idx =
     Inr (AList.update day (cs @ take n (drop idx cl)) sched, idx + length (take n (drop idx cl)))"
proof (induction n arbitrary: sched cs idx)
  case 0
  then show ?case by (simp add: AList.update_triv)
next
  case (Suc n)
  show ?case
  proof (cases "idx < length cl")
    case True
    have m: "map_of (AList.update day (cs @ [cl ! idx]) sched) day = Some (cs @ [cl ! idx])"
      by (simp add: AList.update_conv')
    have t: "take (Suc n) (drop idx cl) = cl ! idx # take n (drop (Suc idx) cl)"
      using True by (simp add: Cons_nth_drop_Suc [symmetric])
    show ?thesis
      using True Suc.prems Suc.IH [OF m, of "idx + 1"]
      by (simp add: append_course_def t)
  next
    case False
    then show ?thesis
      using Suc.prems Suc.IH [OF Suc.prems, of idx] by simp
  qed
qed

lemma mset_assigned_update:
  "map_of sched day = Some cs \<Longrightarrow>
   mset (assigned (AList.update day (cs @ xs) sched)) = mset (assigned sched) + mset xs"
  by (induction sched) (auto simp: assigned_def)

lemma keys_update_present:
  "map_of sched day = Some cs \<Longrightarrow> map fst (AList.update day v sched) = map fst sched"
  by (induction sched) (auto split: if_splits)

lemma map_of_keys: "day \<in> fst ` set sched \<Longrightarrow> \<exists>cs. map_of sched day = Some cs"
  by (induction sched) auto

lemma cursor_at_Suc: "cursor_at b e (Suc i) = cursor_at b e i + alloc b e i"
  by (simp add: cursor_at_def alloc_def min_def)

lemma cursor_at_le:
  assumes "i \<le> D" "e < D"
  shows "cursor_at b e i \<le> D * b + e"
proof -
  have "i * b \<le> D * b" using assms(1) by (rule mult_le_mono1)
  moreover have "min i e \<le> e" by simp
  ultimately show ?thesis unfolding cursor_at_def by linarith
qed

lemma courses_this_day_alloc:
  assumes "i < D" "e < D" "T = D * b + e"
  shows "courses_this_day b e T i (cursor_at b e i) = alloc b e i"
proof (cases "b = 0 \<and> \<not> i < e")
  case True
  then have "cursor_at b e i = T" using assms by (simp add: cursor_at_def min_def)
  then show ?thesis using True by (simp add: courses_this_day_def alloc_def)
next
  case False
  then show ?thesis by (auto simp: courses_this_day_def alloc_def Let_def)
qed

lemma fn_an_count: "fn_count n + an_count n = n"
  by (simp add: fn_count_def an_count_def)

lemma take_drop_add: "take a (drop i xs) @ take b (drop (i + a) xs) = take (a + b) (drop i xs)"
  by (simp add: take_add add.commute)

lemma day_step_eq:
  assumes f: "map_of fn day = Some fs" and a: "map_of an day = Some as"
    and n: "n = courses_this_day b e (length cl) i idx"
    and le: "idx + n \<le> length cl"
  shows "day_step b e cl (i, day) (fn, an, idx) =
           Inr (AList.update day (fs @ take (fn_count n) (drop idx cl)) fn,
                AList.update day (as @ take (an_count n) (drop (idx + fn_count n) cl)) an,
                idx + n)"
proof -
  have l1: "idx + length (take (fn_count n) (drop idx cl)) = idx + fn_count n"
    using le fn_an_count [of n] by simp
  have l2: "idx + fn_count n + length (take (an_count n) (drop (idx + fn_count n) cl)) = idx + n"
    using le fn_an_count [of n] by simp
  have s1: "assign_session (fn_count n) day cl fn idx =
              Inr (AList.update day (fs @ take (fn_count n) (drop idx cl)) fn, idx + fn_count n)"
    unfolding assign_session_eq [OF f] l1 ..
  have s2: "assign_session (an_count n) day cl an (idx + fn_count n) =
              Inr (AList.update day (as @ take (an_count n) (drop (idx + fn_count n) cl)) an,
                   idx + n)"
    unfolding assign_session_eq [OF a] l2 ..
  show ?thesis
    by (simp only: day_step.simps n [symmetric] Let_def s1 s2 sum.case prod.case)
qed

lemma days_loop_run:
  assumes e: "e < D" and T: "length cl = D * b + e"
  shows "set ds \<subseteq> fst ` set fn \<Longrightarrow> set ds \<subseteq> fst ` set an \<Longrightarrow> k + length ds \<le> D \<Longrightarrow>
     \<exists>fn' an'. days_loop b e cl (enumerate k ds) (fn, an, cursor_at b e k) =
                 Inr (fn', an', cursor_at b e (k + length ds)) \<and>
       map fst fn' = map fst fn \<and> map fst an' = map fst an \<and>
       mset (assigned fn') + mset (assigned an') + mset (drop (cursor_at b e (k + length ds)) cl) =
       mset (assigned fn) + mset (assigned an) + mset (drop (cursor_at b e k) cl)"
proof (induction ds arbitrary: k fn an)
  case Nil
  then show ?case by simp
next
  case (Cons d ds)
  let ?idx = "cursor_at b e k"
  let ?n = "alloc b e k"
  from Cons.prems obtain fs as where f: "map_of fn d = Some fs" and a: "map_of an d = Some as"
    using map_of_keys [of d fn] map_of_keys [of d an] by auto
  have kD: "k < D" using Cons.prems(3) by simp
  have n: "?n = courses_this_day b e (length cl) k ?idx"
    using courses_this_day_alloc [OF kD e T] by simp
  have le: "?idx + ?n \<le> length cl"
    using cursor_at_le [of "Suc k" D e b] kD e by (simp add: cursor_at_Suc T)
  let ?fn1 = "AList.update d (fs @ take (fn_count ?n) (drop ?idx cl)) fn"
  let ?an1 = "AList.update d (as @ take (an_count ?n) (drop (?idx + fn_count ?n) cl)) an"
  have step: "day_step b e cl (k, d) (fn, an, ?idx) = Inr (?fn1, ?an1, cursor_at b e (Suc k))"
    using day_step_eq [OF f a n le] by (simp add: cursor_at_Suc)
  have kf: "map fst ?fn1 = map fst fn" by (rule keys_update_present [OF f])
  have ka: "map fst ?an1 = map fst an" by (rule keys_update_present [OF a])
  have sf: "set ds \<subseteq> fst ` set ?fn1" using Cons.prems(1) kf by (metis set_map set_subset_Cons subset_trans)
  have sa: "set ds \<subseteq> fst ` set ?an1" using Cons.prems(2) ka by (metis set_map set_subset_Cons subset_trans)
  have kl: "Suc k + length ds \<le> D" using Cons.prems(3) by simp
  from Cons.IH [OF sf sa kl] obtain fn' an' where
    run: "days_loop b e cl (enumerate (Suc k) ds) (?fn1, ?an1, cursor_at b e (Suc k)) =
            Inr (fn', an', cursor_at b e (Suc k + length ds))"
    and kf': "map fst fn' = map fst ?fn1" and ka': "map fst an' = map fst ?an1"
    and ms: "mset (assigned fn') + mset (assigned an') + mset (drop (cursor_at b e (Suc k + length ds)) cl) =
             mset (assigned ?fn1) + mset (assigned ?an1) + mset (drop (cursor_at b e (Suc k)) cl)"
    by blast
  have split: "mset (drop ?idx cl) =
      mset (take (fn_count ?n) (drop ?idx cl)) + mset (take (an_count ?n) (drop (?idx + fn_count ?n) cl))
      + mset (drop (cursor_at b e (Suc k)) cl)"
  proof -
    have "drop ?idx cl = take ?n (drop ?idx cl) @ drop ?n (drop ?idx cl)"
      by (simp only: append_take_drop_id)
    also have "drop ?n (drop ?idx cl) = drop (?idx + ?n) cl"
      by (simp add: add.commute)
    finally have "drop ?idx cl = take ?n (drop ?idx cl) @ drop (?idx + ?n) cl" .
    moreover have "take ?n (drop ?idx cl) =
      take (fn_count ?n) (drop ?idx cl) @ take (an_count ?n) (drop (?idx + fn_count ?n) cl)"
      using take_drop_add [of "fn_count ?n" ?idx cl "an_count ?n"] fn_an_count [of ?n] by simp
    ultimately have "drop ?idx cl = (take (fn_count ?n) (drop ?idx cl) @ take (an_count ?n) (drop (?idx + fn_count ?n) cl)) @ drop (?idx + ?n) cl"
      by simp
    then have "mset (drop ?idx cl) = mset ((take (fn_count ?n) (drop ?idx cl) @ take (an_count ?n) (drop (?idx + fn_count ?n) cl)) @ drop (?idx + ?n) cl)"
      by simp
    then show ?thesis by (simp add: cursor_at_Suc)
  qed
  have ms': "mset (assigned fn') + mset (assigned an') + mset (drop (cursor_at b e (k + length (d # ds))) cl) =
             mset (assigned fn) + mset (assigned an) + mset (drop ?idx cl)"
    using ms by (simp add: mset_assigned_update [OF f] mset_assigned_update [OF a] split)
  show ?case
    using run step kf' ka' kf ka ms' by simp
qed

lemma days_loop_snoc:
  "days_loop b e cl (ps @ [p]) st =
     (case days_loop b e cl ps st of Inl err \<Rightarrow> Inl err | Inr st' \<Rightarrow> day_step b e cl p st')"
  by (induction ps arbitrary: st) (auto split: sum.splits)

lemma take_enumerate: "take i (enumerate k xs) = enumerate k (take i xs)"
  by (simp add: enumerate_eq_zip take_zip min_def)

lemma take_Suc_enumerate:
  "i < length xs \<Longrightarrow> take (Suc i) (enumerate 0 xs) = take i (enumerate 0 xs) @ [(i, xs ! i)]"
  by (simp add: take_Suc_conv_app_nth nth_enumerate_eq)

lemma keys_new_schedule_aux:
  "fst ` set (fold (\<lambda>day d. AList.update day [] d) ds d0) = set ds \<union> fst ` set d0"
  by (induction ds arbitrary: d0) (auto simp: AList.dom_update)

lemma keys_new_schedule: "fst ` set (new_schedule ds) = set ds"
  by (simp add: new_schedule_def keys_new_schedule_aux)

lemma assigned_update_Nil:
  "assigned d0 = [] \<Longrightarrow> assigned (AList.update day [] d0) = []"
  by (induction d0) (auto simp: assigned_def)

lemma assigned_new_schedule_aux:
  "assigned d0 = [] \<Longrightarrow> assigned (fold (\<lambda>day d. AList.update day [] d) ds d0) = []"
  by (induction ds arbitrary: d0) (auto simp: assigned_update_Nil)

lemma assigned_new_schedule: "assigned (new_schedule ds) = []"
  unfolding new_schedule_def by (rule assigned_new_schedule_aux) (simp add: assigned_def)

lemma distribute_loop_prefix:
  "exam_days \<noteq> [] \<Longrightarrow> distribute cl exam_days = loop_prefix cl exam_days (length exam_days)"
  by (simp add: distribute_def loop_prefix_def Let_def enumerate_eq_zip)

lemma div_mod_facts:
  fixes T D :: nat
  assumes "0 < D"
  shows "T mod D < D" and "T = D * (T div D) + T mod D"
  using assms by simp_all

lemma loop_prefix_state:
  assumes ne: "ds \<noteq> []" and i: "i \<le> length ds"
  shows "\<exists>fn an. loop_prefix cl ds i =
            Inr (fn, an, cursor_at (length cl div length ds) (length cl mod length ds) i) \<and>
          map fst fn = map fst (new_schedule ds) \<and> map fst an = map fst (new_schedule ds) \<and>
          mset (assigned fn) + mset (assigned an) +
            mset (drop (cursor_at (length cl div length ds) (length cl mod length ds) i) cl) = mset cl"
proof -
  let ?D = "length ds"
  let ?b = "length cl div ?D" and ?e = "length cl mod ?D"
  have D: "0 < ?D" using ne by simp
  have e: "?e < ?D" and T: "length cl = ?D * ?b + ?e" using div_mod_facts [OF D] by auto
  have sub: "set (take i ds) \<subseteq> fst ` set (new_schedule ds)"
    using set_take_subset [of i ds] by (simp add: keys_new_schedule)
  have len: "0 + length (take i ds) \<le> ?D" by simp
  from days_loop_run [OF e T sub sub len]
  obtain fn an where
    r: "days_loop ?b ?e cl (enumerate 0 (take i ds)) (new_schedule ds, new_schedule ds, cursor_at ?b ?e 0) =
          Inr (fn, an, cursor_at ?b ?e (0 + length (take i ds)))"
    and k: "map fst fn = map fst (new_schedule ds)" "map fst an = map fst (new_schedule ds)"
    and m: "mset (assigned fn) + mset (assigned an) + mset (drop (cursor_at ?b ?e (0 + length (take i ds))) cl) =
            mset (assigned (new_schedule ds)) + mset (assigned (new_schedule ds)) + mset (drop (cursor_at ?b ?e 0) cl)"
    by blast
  have c0: "cursor_at ?b ?e 0 = 0" by (simp add: cursor_at_def)
  have li: "0 + length (take i ds) = i" using i by simp
  show ?thesis
    using r k m unfolding loop_prefix_def take_enumerate c0 li
    by (simp add: assigned_new_schedule)
qed

lemma distribute_ok:
  assumes ne: "ds \<noteq> []"
  shows "\<exists>fn an. distribute cl ds = Inr (fn, an, length cl) \<and>
          map fst fn = map fst (new_schedule ds) \<and> map fst an = map fst (new_schedule ds) \<and>
          mset (assigned fn) + mset (assigned an) = mset cl"
proof -
  have D: "0 < length ds" using ne by simp
  have c: "cursor_at (length cl div length ds) (length cl mod length ds) (length ds) = length cl"
    using div_mod_facts [OF D, of "length cl"] by (simp add: cursor_at_def min_def)
  show ?thesis
    using loop_prefix_state [OF ne order_refl, of cl] unfolding c distribute_loop_prefix [OF ne]
    by simp
qed

lemma loop_prefix_Suc:
  assumes ne: "ds \<noteq> []" and i: "i < length ds"
    and st: "loop_prefix cl ds i = Inr (fn, an, idx)"
  defines "n \<equiv> alloc (length cl div length ds) (length cl mod length ds) i"
  shows "\<exists>fs as xs ys. map_of fn (ds ! i) = Some fs \<and> map_of an (ds ! i) = Some as \<and>
           length xs = fn_count n \<and> length ys = an_count n \<and>
           loop_prefix cl ds (Suc i) =
             Inr (AList.update (ds ! i) (fs @ xs) fn, AList.update (ds ! i) (as @ ys) an, idx + n)"
proof -
  let ?D = "length ds"
  let ?b = "length cl div ?D" and ?e = "length cl mod ?D"
  have D: "0 < ?D" using ne by simp
  have e: "?e < ?D" and T: "length cl = ?D * ?b + ?e" using div_mod_facts [OF D] by auto
  from loop_prefix_state [OF ne less_imp_le [OF i], of cl] obtain fn0 an0 where
    st0: "loop_prefix cl ds i = Inr (fn0, an0, cursor_at ?b ?e i)"
    and kf0: "map fst fn0 = map fst (new_schedule ds)"
    and ka0: "map fst an0 = map fst (new_schedule ds)"
    by blast
  from st st0 have eqs: "fn0 = fn" "an0 = an" "cursor_at ?b ?e i = idx"
    by simp_all
  have idx: "idx = cursor_at ?b ?e i" using eqs(3) by simp
  have kf: "map fst fn = map fst (new_schedule ds)" using kf0 eqs(1) by simp
  have ka: "map fst an = map fst (new_schedule ds)" using ka0 eqs(2) by simp
  have "ds ! i \<in> set ds" using i by simp
  then have mem: "ds ! i \<in> set (map fst (new_schedule ds))"
    using keys_new_schedule [of ds] by simp
  have "ds ! i \<in> set (map fst fn)" unfolding kf by (fact mem)
  moreover have "ds ! i \<in> set (map fst an)" unfolding ka by (fact mem)
  ultimately have inf: "ds ! i \<in> fst ` set fn" and ina: "ds ! i \<in> fst ` set an"
    by simp_all
  from map_of_keys [OF inf] obtain fs where f: "map_of fn (ds ! i) = Some fs" ..
  from map_of_keys [OF ina] obtain as where a: "map_of an (ds ! i) = Some as" ..
  have n: "n = courses_this_day ?b ?e (length cl) i idx"
    unfolding n_def idx using courses_this_day_alloc [OF i e T] by simp
  have "cursor_at ?b ?e (Suc i) \<le> ?D * ?b + ?e"
    by (rule cursor_at_le) (use i e in simp_all)
  then have "cursor_at ?b ?e i + alloc ?b ?e i \<le> ?D * ?b + ?e"
    unfolding cursor_at_Suc .
  then have le: "idx + n \<le> length cl"
    unfolding idx n_def using T by linarith
  let ?xs = "take (fn_count n) (drop idx cl)"
  let ?ys = "take (an_count n) (drop (idx + fn_count n) cl)"
  have lx: "length ?xs = fn_count n" using le fn_an_count [of n] by simp
  have ly: "length ?ys = an_count n" using le fn_an_count [of n] by simp
  have "loop_prefix cl ds (Suc i) = day_step ?b ?e cl (i, ds ! i) (fn, an, idx)"
    using st unfolding loop_prefix_def take_Suc_enumerate [OF i] days_loop_snoc by simp
  then have "loop_prefix cl ds (Suc i) =
      Inr (AList.update (ds ! i) (fs @ ?xs) fn, AList.update (ds ! i) (as @ ?ys) an, idx + n)"
    using day_step_eq [OF f a n le] by simp
  then show ?thesis using f a lx ly by blast
qed

lemma length_assigned_update:
  "map_of sched day = Some cs \<Longrightarrow>
   length (assigned (AList.update day (cs @ xs) sched)) = length (assigned sched) + length xs"
  using mset_assigned_update [of sched day cs xs] by (metis size_mset size_union)

lemma bucket_update: "bucket (AList.update day v sched) day = v"
  by (simp add: bucket_def AList.update_conv')

lemma bucket_Some: "map_of sched day = Some cs \<Longrightarrow> bucket sched day = cs"
  by (simp add: bucket_def)

lemma received_eq:
  fixes cl :: "string list"
  assumes ne: "ds \<noteq> []" and i: "i < length ds"
  defines "n \<equiv> alloc (length cl div length ds) (length cl mod length ds) i"
  shows "courses_received cl ds i = Some n"
    and "fn_received cl ds i = Some (fn_count n)"
    and "an_received cl ds i = Some (an_count n)"
proof -
  from loop_prefix_state [OF ne less_imp_le [OF i], of cl] obtain fn an idx where
    st: "loop_prefix cl ds i = Inr (fn, an, idx)" by blast
  from loop_prefix_Suc [OF ne i st] obtain fs as xs ys where
    f: "map_of fn (ds ! i) = Some fs" and a: "map_of an (ds ! i) = Some as"
    and lx: "length xs = fn_count n" and ly: "length ys = an_count n"
    and st': "loop_prefix cl ds (Suc i) =
             Inr (AList.update (ds ! i) (fs @ xs) fn, AList.update (ds ! i) (as @ ys) an, idx + n)"
    unfolding n_def by blast
  show "courses_received cl ds i = Some n"
    using fn_an_count [of n]
    by (simp add: courses_received_def st st' length_assigned_update [OF f]
        length_assigned_update [OF a] lx ly)
  show "fn_received cl ds i = Some (fn_count n)"
    by (simp add: fn_received_def st st' bucket_update bucket_Some [OF f] lx)
  show "an_received cl ds i = Some (an_count n)"
    by (simp add: an_received_def st st' bucket_update bucket_Some [OF a] ly)
qed

lemma slice_to_7: "slice_to exam_days_all 7 = exam_days_all"
  by (simp add: slice_to_def exam_days_all_def)

lemma length_exam_days_all: "length exam_days_all = 7"
  by (simp add: exam_days_all_def)

section \<open>The buckets when the day labels are distinct\<close>

text \<open>
  When no label occurs twice among the days of a run (any number of days up to six), the
  bucket of a day at the end of the loop is what the day's own iteration appended: the
  next courses of the list, the forenoon share first.
\<close>

lemma bucket_update_other: "day' \<noteq> day \<Longrightarrow> bucket (AList.update day v sched) day' = bucket sched day'"
  by (simp add: bucket_def AList.update_conv')

lemma days_loop_buckets:
  assumes e: "e < D" and T: "length cl = D * b + e"
  shows "distinct ds \<Longrightarrow> set ds \<subseteq> fst ` set fn \<Longrightarrow> set ds \<subseteq> fst ` set an \<Longrightarrow>
     k + length ds \<le> D \<Longrightarrow>
     days_loop b e cl (enumerate k ds) (fn, an, cursor_at b e k) = Inr (fn', an', c) \<Longrightarrow>
     (\<forall>j < length ds.
        bucket fn' (ds ! j) =
          bucket fn (ds ! j) @
          take (fn_count (alloc b e (k + j))) (drop (cursor_at b e (k + j)) cl) \<and>
        bucket an' (ds ! j) =
          bucket an (ds ! j) @
          take (an_count (alloc b e (k + j)))
            (drop (cursor_at b e (k + j) + fn_count (alloc b e (k + j))) cl)) \<and>
     (\<forall>day. day \<notin> set ds \<longrightarrow> bucket fn' day = bucket fn day \<and> bucket an' day = bucket an day)"
proof (induction ds arbitrary: k fn an)
  case Nil
  then show ?case by simp
next
  case (Cons d ds)
  let ?idx = "cursor_at b e k"
  let ?n = "alloc b e k"
  have dfn: "d \<in> fst ` set fn" and dan: "d \<in> fst ` set an" using Cons.prems(2,3) by auto
  from map_of_keys [OF dfn] obtain fs where f: "map_of fn d = Some fs" ..
  from map_of_keys [OF dan] obtain as where a: "map_of an d = Some as" ..
  have kD: "k < D" using Cons.prems(4) by simp
  have n: "?n = courses_this_day b e (length cl) k ?idx"
    using courses_this_day_alloc [OF kD e T] by simp
  have "cursor_at b e (Suc k) \<le> D * b + e"
    by (rule cursor_at_le) (use kD e in simp_all)
  then have le: "?idx + ?n \<le> length cl" by (simp add: cursor_at_Suc T)
  let ?fn1 = "AList.update d (fs @ take (fn_count ?n) (drop ?idx cl)) fn"
  let ?an1 = "AList.update d (as @ take (an_count ?n) (drop (?idx + fn_count ?n) cl)) an"
  have step: "day_step b e cl (k, d) (fn, an, ?idx) = Inr (?fn1, ?an1, cursor_at b e (Suc k))"
    using day_step_eq [OF f a n le] by (simp add: cursor_at_Suc)
  have kf: "map fst ?fn1 = map fst fn" by (rule keys_update_present [OF f])
  have ka: "map fst ?an1 = map fst an" by (rule keys_update_present [OF a])
  have "set ds \<subseteq> set (map fst fn)" "set ds \<subseteq> set (map fst an)"
    using Cons.prems(2,3) by auto
  then have "set ds \<subseteq> set (map fst ?fn1)" "set ds \<subseteq> set (map fst ?an1)"
    unfolding kf ka by simp_all
  then have sf: "set ds \<subseteq> fst ` set ?fn1" and sa: "set ds \<subseteq> fst ` set ?an1" by simp_all
  have dist: "distinct ds" and dnot: "d \<notin> set ds" using Cons.prems(1) by simp_all
  have kl: "Suc k + length ds \<le> D" using Cons.prems(4) by simp
  have run: "days_loop b e cl (enumerate (Suc k) ds) (?fn1, ?an1, cursor_at b e (Suc k)) =
      Inr (fn', an', c)"
    using Cons.prems(5) step by simp
  note IH = Cons.IH [OF dist sf sa kl run]
  have b1f: "bucket ?fn1 d = bucket fn d @ take (fn_count ?n) (drop ?idx cl)"
    by (simp add: bucket_update bucket_Some [OF f])
  have b1a: "bucket ?an1 d = bucket an d @ take (an_count ?n) (drop (?idx + fn_count ?n) cl)"
    by (simp add: bucket_update bucket_Some [OF a])
  have other: "bucket ?fn1 day = bucket fn day \<and> bucket ?an1 day = bucket an day" if "day \<noteq> d" for day
    using that by (simp add: bucket_update_other)
  show ?case
  proof (intro conjI allI impI)
    fix j assume j: "j < length (d # ds)"
    show "bucket fn' ((d # ds) ! j) =
          bucket fn ((d # ds) ! j) @
          take (fn_count (alloc b e (k + j))) (drop (cursor_at b e (k + j)) cl)"
    proof (cases j)
      case 0
      then show ?thesis using IH dnot b1f by simp
    next
      case (Suc j')
      then have j': "j' < length ds" using j by simp
      then have "ds ! j' \<noteq> d" using dnot by auto
      then show ?thesis using IH j' Suc other by simp
    qed
    show "bucket an' ((d # ds) ! j) =
          bucket an ((d # ds) ! j) @
          take (an_count (alloc b e (k + j)))
            (drop (cursor_at b e (k + j) + fn_count (alloc b e (k + j))) cl)"
    proof (cases j)
      case 0
      then show ?thesis using IH dnot b1a by simp
    next
      case (Suc j')
      then have j': "j' < length ds" using j by simp
      then have "ds ! j' \<noteq> d" using dnot by auto
      then show ?thesis using IH j' Suc other by simp
    qed
  next
    fix day assume "day \<notin> set (d # ds)"
    then have "day \<noteq> d" "day \<notin> set ds" by simp_all
    then show "bucket fn' day = bucket fn day" using IH other by simp
  next
    fix day assume "day \<notin> set (d # ds)"
    then have "day \<noteq> d" "day \<notin> set ds" by simp_all
    then show "bucket an' day = bucket an day" using IH other by simp
  qed
qed


lemma values_update_Nil:
  "\<forall>p \<in> set d0. snd p = [] \<Longrightarrow> \<forall>p \<in> set (AList.update d [] d0). snd p = []"
  by (induction d0) auto

lemma values_new_schedule_aux:
  "\<forall>p \<in> set d0. snd p = [] \<Longrightarrow>
   \<forall>p \<in> set (fold (\<lambda>day d. AList.update day [] d) ds d0). snd p = []"
proof (induction ds arbitrary: d0)
  case Nil
  then show ?case by simp
next
  case (Cons d ds)
  show ?case
    using Cons.IH [OF values_update_Nil [OF Cons.prems, of d]] by simp
qed

lemma bucket_new_schedule: "bucket (new_schedule ds) day = []"
proof (cases "map_of (new_schedule ds) day")
  case None
  then show ?thesis by (simp add: bucket_def)
next
  case (Some cs)
  have all: "\<forall>p \<in> set (new_schedule ds). snd p = []"
    unfolding new_schedule_def by (rule values_new_schedule_aux) simp
  from Some have "(day, cs) \<in> set (new_schedule ds)" by (rule map_of_SomeD)
  then have "cs = []" using all by auto
  then show ?thesis using Some by (simp add: bucket_def)
qed

lemma final_buckets_distinct_days:
  assumes ne: "ds \<noteq> []" and dist: "distinct ds" and i: "i < length ds"
    and run: "distribute cl ds = Inr (fn, an, c)"
  defines "idx \<equiv> cursor_at (length cl div length ds) (length cl mod length ds) i"
    and "n \<equiv> alloc (length cl div length ds) (length cl mod length ds) i"
  shows "bucket fn (ds ! i) = take (fn_count n) (drop idx cl) \<and>
         bucket an (ds ! i) = take (an_count n) (drop (idx + fn_count n) cl) \<and>
         length (bucket fn (ds ! i)) = fn_count n \<and> length (bucket an (ds ! i)) = an_count n"
proof -
  let ?D = "length ds"
  let ?b = "length cl div ?D" and ?e = "length cl mod ?D"
  have D: "0 < ?D" using ne by simp
  have e: "?e < ?D" and T: "length cl = ?D * ?b + ?e" using div_mod_facts [OF D] by auto
  have sub: "set ds \<subseteq> fst ` set (new_schedule ds)" by (simp add: keys_new_schedule)
  have len: "0 + length ds \<le> ?D" by simp
  have c0: "cursor_at ?b ?e 0 = 0" by (simp add: cursor_at_def)
  have r: "days_loop ?b ?e cl (enumerate 0 ds) (new_schedule ds, new_schedule ds, cursor_at ?b ?e 0) =
      Inr (fn, an, c)"
    using run ne unfolding c0 by (simp add: distribute_def Let_def)
  from days_loop_buckets [OF e T dist sub sub len r] i
  have bf: "bucket fn (ds ! i) = take (fn_count n) (drop idx cl)"
    and ba: "bucket an (ds ! i) = take (an_count n) (drop (idx + fn_count n) cl)"
    unfolding idx_def n_def by (simp_all add: bucket_new_schedule)
  have "cursor_at ?b ?e (Suc i) \<le> ?D * ?b + ?e"
    by (rule cursor_at_le) (use i e in simp_all)
  then have "cursor_at ?b ?e i + alloc ?b ?e i \<le> ?D * ?b + ?e"
    unfolding cursor_at_Suc .
  then have le: "idx + n \<le> length cl"
    unfolding idx_def n_def using T by linarith
  have "length (take (fn_count n) (drop idx cl)) = fn_count n"
    using le fn_an_count [of n] by simp
  moreover have "length (take (an_count n) (drop (idx + fn_count n) cl)) = an_count n"
    using le fn_an_count [of n] by simp
  ultimately show ?thesis using bf ba by simp
qed

section \<open>Lists and tables\<close>

lemma set_key_keep_first:
  "key ` set (keep_first key seen xs) = key ` set xs - set seen"
  by (induction xs arbitrary: seen) auto

lemma distinct_key_keep_first: "distinct (map key (keep_first key seen xs))"
proof (induction xs arbitrary: seen)
  case Nil
  then show ?case by simp
next
  case (Cons x xs)
  then show ?case using set_key_keep_first [of key "key x # seen" xs] by auto
qed

lemma set_unique: "set (unique xs) = set xs"
  using set_key_keep_first [of "\<lambda>x. x" "[]" xs] by (simp add: unique_def)

lemma distinct_unique: "distinct (unique xs)"
  using distinct_key_keep_first [of "\<lambda>x. x" "[]" xs] by (simp add: unique_def)

lemma set_dropna: "set (dropna xs) = {x. Some x \<in> set xs}"
  by (induction xs rule: dropna.induct) auto

lemma filter_keep_first:
  "filter (\<lambda>x. key x = k) (keep_first key seen xs) =
     (if k \<in> set seen then []
      else case find (\<lambda>x. key x = k) xs of None \<Rightarrow> [] | Some x \<Rightarrow> [x])"
proof (induction xs arbitrary: seen)
  case Nil
  then show ?case by simp
next
  case (Cons x xs)
  show ?case
  proof (cases "key x \<in> set seen")
    case True
    then show ?thesis using Cons.IH [of seen] by auto
  next
    case False
    then show ?thesis using Cons.IH [of "key x # seen"] by auto
  qed
qed

lemma dropna_all_missing: "list_all (\<lambda>c. c = None) xs \<Longrightarrow> dropna xs = []"
  by (induction xs rule: dropna.induct) auto


lemma shuffle_Nil: "\<forall>xs. mset (shuffle xs) = mset xs \<Longrightarrow> shuffle [] = []"
  by (metis mset_zero_iff)

lemma course_list_nonempty:
  assumes perm: "\<forall>xs. mset (shuffle xs) = mset xs"
    and "dropna (col df ''Course Code'') \<noteq> []"
  shows "shuffle (unique (dropna (col df ''Course Code''))) \<noteq> []"
proof -
  have "set (unique (dropna (col df ''Course Code''))) \<noteq> {}"
    using assms(2) by (simp add: set_unique)
  then have "unique (dropna (col df ''Course Code'')) \<noteq> []" by auto
  then show ?thesis using perm by (metis mset_zero_iff)
qed

lemma schedule_exams_run:
  assumes perm: "\<forall>xs. mset (shuffle xs) = mset xs"
    and col: "''Course Code'' \<in> set (columns courses_df)"
    and some: "dropna (col courses_df ''Course Code'') \<noteq> []"
  shows "schedule_exams shuffle courses_df num_days =
      (case distribute (shuffle (unique (dropna (col courses_df ''Course Code''))))
              (slice_to exam_days_all num_days) of
         Inl e \<Rightarrow> Inl e
       | Inr (fn_schedule, an_schedule, course_idx) \<Rightarrow>
           Inr (DataFrame_of (session_data (slice_to exam_days_all num_days) fn_schedule),
                DataFrame_of (session_data (slice_to exam_days_all num_days) an_schedule)))"
proof -
  have cl: "shuffle (unique (dropna (col courses_df ''Course Code''))) \<noteq> []"
    by (rule course_list_nonempty [OF perm some])
  have rows: "rows courses_df \<noteq> []" using some by (auto simp: col_def)
  have ne: "\<not> df_empty courses_df" using col rows by (auto simp: df_empty_def)
  show ?thesis using ne col cl by (simp add: schedule_exams_def Let_def)
qed

lemma col_pd_DataFrame: "col pd_DataFrame day = []"
  by (simp add: col_def pd_DataFrame_def)

lemma no_courses_early_return:
  assumes "\<forall>xs. mset (shuffle xs) = mset xs"
    and "dropna (col courses_df ''Course Code'') = []"
  shows "schedule_exams shuffle courses_df num_days = Inr (pd_DataFrame, pd_DataFrame)"
proof -
  have "shuffle (unique []) = []" using shuffle_Nil [OF assms(1)] by (simp add: unique_def)
  then show ?thesis by (simp add: schedule_exams_def assms(2))
qed

section \<open>The columns of the returned tables\<close>

lemma session_data_fold:
  "session_data ds sched =
     fold (\<lambda>day. AList.update day
             (if bucket sched day \<noteq> [] then [join '', '' (bucket sched day)] else [''''])) ds []"
  unfolding session_data_def bucket_def Let_def
  by (rule arg_cong [where f = "\<lambda>f. fold f ds []"]) (auto simp: fun_eq_iff)

lemma keys_fold_update:
  "distinct ds \<Longrightarrow> set ds \<inter> fst ` set acc = {} \<Longrightarrow>
   map fst (fold (\<lambda>day. AList.update day (f day)) ds acc) = map fst acc @ ds"
proof (induction ds arbitrary: acc)
  case Nil
  then show ?case by simp
next
  case (Cons d ds)
  have k: "map fst (AList.update d (f d) acc) = map fst acc @ [d]"
    using Cons.prems(2) by (simp add: AList.update_keys image_iff)
  have "set ds \<inter> fst ` set (AList.update d (f d) acc) = {}"
    using Cons.prems by (auto simp: AList.dom_update)
  with Cons.IH [of "AList.update d (f d) acc"] Cons.prems(1) k show ?case by simp
qed

lemma columns_session_frame:
  "distinct ds \<Longrightarrow> columns (DataFrame_of (session_data ds sched)) = ds"
  by (simp add: DataFrame_of_def session_data_fold keys_fold_update)

lemma distinct_take_exam_days: "k \<le> 6 \<Longrightarrow> distinct (take k exam_days_all)"
proof -
  assume k: "k \<le> 6"
  have "distinct (take 6 exam_days_all)" by (simp add: exam_days_all_def)
  then have "distinct (take k (take 6 exam_days_all))" by (rule distinct_take)
  then show ?thesis using k by (simp add: min_def)
qed

text \<open>
  With seven days the tables of every run with at least one course have six columns: the
  second Monday has none of its own.
\<close>

lemma columns_seven_days:
  "columns (DataFrame_of (session_data exam_days_all sched)) =
     [''Saturday'', ''Monday'', ''Tuesday'', ''Wednesday'', ''Thursday'', ''Friday'']"
  by (simp add: DataFrame_of_def session_data_fold exam_days_all_def)

lemma seven_days_six_columns:
  assumes perm: "\<forall>xs. mset (shuffle xs) = mset xs"
    and col: "''Course Code'' \<in> set (columns courses_df)"
    and some: "dropna (col courses_df ''Course Code'') \<noteq> []"
  shows "\<exists>fn_df an_df. schedule_exams shuffle courses_df 7 = Inr (fn_df, an_df) \<and>
           columns fn_df = [''Saturday'', ''Monday'', ''Tuesday'', ''Wednesday'', ''Thursday'', ''Friday''] \<and>
           columns an_df = [''Saturday'', ''Monday'', ''Tuesday'', ''Wednesday'', ''Thursday'', ''Friday'']"
proof -
  let ?cl = "shuffle (unique (dropna (col courses_df ''Course Code'')))"
  have ne: "exam_days_all \<noteq> []" by (simp add: exam_days_all_def)
  from distribute_ok [OF ne, of ?cl] obtain fn an where
    d: "distribute ?cl exam_days_all = Inr (fn, an, length ?cl)" by blast
  have "schedule_exams shuffle courses_df 7 =
      Inr (DataFrame_of (session_data exam_days_all fn), DataFrame_of (session_data exam_days_all an))"
    using schedule_exams_run [OF perm col some, of 7] by (simp add: slice_to_7 d)
  then show ?thesis using columns_seven_days by blast
qed

section \<open>The loops of the aggregator\<close>

text \<open>The mask takes a text exactly when it is the name, or the name and one line feed.\<close>

lemma contains_anchored_iff:
  "contains_anchored department s \<longleftrightarrow> s = department \<or> s = department @ [CHR 0x0A]"
proof -
  have "s = take (length department) s @ drop (length department) s" by simp
  then show ?thesis
    unfolding contains_anchored_def dollar_matches_def
    by (metis append_Nil2 append_eq_conv_conj)
qed




lemma columns_pd_concat: "set (columns (pd_concat dfs)) = (\<Union>df \<in> set dfs. set (columns df))"
  by (simp add: pd_concat_def set_unique)

lemma rows_pd_concat_missing:
  "label \<notin> set (columns (pd_concat dfs)) \<Longrightarrow> r \<in> set (rows (pd_concat dfs)) \<Longrightarrow> r label = None"
  unfolding columns_pd_concat by (auto simp: pd_concat_def restrict_map_def)

lemma session_rows_by_key:
  "filter (\<lambda>r. r ''Course Code'' = k) (rows (get_all_session_courses L C pick session)) =
     (if ''Course Code'' \<in> set (columns (pd_concat (collected_tables L C pick session))) then
        (case find (\<lambda>r. r ''Course Code'' = k) (rows (pd_concat (collected_tables L C pick session))) of
           None \<Rightarrow> [] | Some r \<Rightarrow> [r])
      else filter (\<lambda>r. r ''Course Code'' = k) (rows (pd_concat (collected_tables L C pick session))))"
proof (cases "collected_tables L C pick session = []")
  case True
  then show ?thesis
    by (simp add: get_all_session_courses_def pd_DataFrame_def pd_concat_def unique_def)
next
  case False
  then show ?thesis
    using filter_keep_first [of "\<lambda>r. r ''Course Code''" k "[]"]
    by (simp add: get_all_session_courses_def Let_def drop_duplicates_def)
qed



section \<open>What one iteration of the day loop appends\<close>

text \<open>
  The arithmetic of the loop is the one the code comments: with seven days the iteration
  at position \<open>i\<close> appends \<open>T div 7 + 1\<close> courses if \<open>i < T mod 7\<close> and \<open>T div 7\<close>
  otherwise, and the rule that forces one course onto a day with none never applies.
  These are the courses appended by one iteration, not the contents of a bucket of the
  returned schedule.
\<close>

lemma position_shares:
  assumes "i < 7" and "j < 7"
  shows "courses_received cl (slice_to exam_days_all 7) i =
           Some (length cl div 7 + (if i < length cl mod 7 then 1 else 0)) \<and>
         (\<exists>a b. courses_received cl (slice_to exam_days_all 7) i = Some a \<and>
                courses_received cl (slice_to exam_days_all 7) j = Some b \<and>
                a \<le> b + 1 \<and> b \<le> a + 1) \<and>
         (length cl = 10 \<longrightarrow>
            courses_received cl (slice_to exam_days_all 7) i = Some (if i < 3 then 2 else 1))"
proof -
  have ne: "exam_days_all \<noteq> []" by (simp add: exam_days_all_def)
  have ri: "courses_received cl exam_days_all i = Some (alloc (length cl div 7) (length cl mod 7) i)"
    using received_eq(1) [OF ne, of i cl] assms(1) by (simp add: length_exam_days_all)
  have rj: "courses_received cl exam_days_all j = Some (alloc (length cl div 7) (length cl mod 7) j)"
    using received_eq(1) [OF ne, of j cl] assms(2) by (simp add: length_exam_days_all)
  show ?thesis
    unfolding slice_to_7 ri rj by (auto simp: alloc_def)
qed

text \<open>
  Of the courses one iteration appends, half rounded up go to the forenoon bucket of its
  day and the rest to the afternoon bucket, whatever the number of days.
\<close>

lemma position_fn_an_shares:
  assumes "i < length (slice_to exam_days_all num_days)"
  shows "\<exists>c f a. courses_received cl (slice_to exam_days_all num_days) i = Some c \<and>
           fn_received cl (slice_to exam_days_all num_days) i = Some f \<and>
           an_received cl (slice_to exam_days_all num_days) i = Some a \<and>
           f = (c + 1) div 2 \<and> c \<le> 2 * f \<and> 2 * f \<le> c + 1 \<and> f + a = c \<and>
           (f = a \<or> f = a + 1) \<and>
           (c = 2 \<longrightarrow> f = 1 \<and> a = 1) \<and> (c = 1 \<longrightarrow> f = 1 \<and> a = 0)"
proof -
  let ?ds = "slice_to exam_days_all num_days"
  have ne: "?ds \<noteq> []" using assms by auto
  let ?c = "alloc (length cl div length ?ds) (length cl mod length ?ds) i"
  have "fn_count ?c = (?c + 1) div 2" "?c \<le> 2 * fn_count ?c" "2 * fn_count ?c \<le> ?c + 1"
    "fn_count ?c + an_count ?c = ?c" "fn_count ?c = an_count ?c \<or> fn_count ?c = an_count ?c + 1"
    "?c = 2 \<longrightarrow> fn_count ?c = 1 \<and> an_count ?c = 1" "?c = 1 \<longrightarrow> fn_count ?c = 1 \<and> an_count ?c = 0"
    unfolding fn_count_def an_count_def by presburger+
  then show ?thesis
    using received_eq [OF ne assms, of cl] by blast
qed

text \<open>The ten-course example, iteration by iteration.\<close>

lemma ten_courses_by_position:
  "map (courses_received [''a'', ''b'', ''c'', ''d'', ''e'', ''f'', ''g'', ''h'', ''i'', ''j'']
          (slice_to exam_days_all 7)) [0 ..< 7] =
     [Some 2, Some 2, Some 2, Some 1, Some 1, Some 1, Some 1] \<and>
   map (fn_received [''a'', ''b'', ''c'', ''d'', ''e'', ''f'', ''g'', ''h'', ''i'', ''j'']
          (slice_to exam_days_all 7)) [0 ..< 7] =
     [Some 1, Some 1, Some 1, Some 1, Some 1, Some 1, Some 1] \<and>
   map (an_received [''a'', ''b'', ''c'', ''d'', ''e'', ''f'', ''g'', ''h'', ''i'', ''j'']
          (slice_to exam_days_all 7)) [0 ..< 7] =
     [Some 1, Some 1, Some 1, Some 0, Some 0, Some 0, Some 0]"
  by code_simp

section \<open>Claims on the distribution\<close>

text \<open>
  C1 at seven courses and seven days. The claim says that the buckets, read in day order
  with the forenoon before the afternoon, give back the shuffled list. The seventh course
  is stored under the label Monday, after the second course: read by the seven day
  positions the buckets give nine entries, read by the six keys they give the seven
  courses with the seventh in third place. The returned forenoon table has six columns
  and the cell \<^verbatim>\<open>C1, C6\<close> under Monday.
\<close>

theorem seven_courses_order_lost:
  "(case distribute [''C0'', ''C1'', ''C2'', ''C3'', ''C4'', ''C5'', ''C6''] (slice_to exam_days_all 7) of
      Inl e \<Rightarrow> False
    | Inr (fn_schedule, an_schedule, course_idx) \<Rightarrow>
        fn_schedule = [(''Saturday'', [''C0'']), (''Monday'', [''C1'', ''C6'']), (''Tuesday'', [''C2'']),
                       (''Wednesday'', [''C3'']), (''Thursday'', [''C4'']), (''Friday'', [''C5''])] \<and>
        an_schedule = [(''Saturday'', []), (''Monday'', []), (''Tuesday'', []),
                       (''Wednesday'', []), (''Thursday'', []), (''Friday'', [])] \<and>
        concat (map (\<lambda>day. bucket fn_schedule day @ bucket an_schedule day) (slice_to exam_days_all 7)) =
          [''C0'', ''C1'', ''C6'', ''C2'', ''C3'', ''C4'', ''C5'', ''C1'', ''C6''] \<and>
        concat (map (\<lambda>(day, cs). cs @ bucket an_schedule day) fn_schedule) =
          [''C0'', ''C1'', ''C6'', ''C2'', ''C3'', ''C4'', ''C5'']) \<and>
   (case schedule_exams (\<lambda>xs. xs)
           (courses_table [''C0'', ''C1'', ''C2'', ''C3'', ''C4'', ''C5'', ''C6'']) 7 of
      Inl e \<Rightarrow> False
    | Inr (fn_df, an_df) \<Rightarrow>
        columns fn_df = [''Saturday'', ''Monday'', ''Tuesday'', ''Wednesday'', ''Thursday'', ''Friday''] \<and>
        map (\<lambda>r. map r (columns fn_df)) (rows fn_df) =
          [[Some ''C0'', Some ''C1, C6'', Some ''C2'', Some ''C3'', Some ''C4'', Some ''C5'']] \<and>
        map (\<lambda>r. map r (columns an_df)) (rows an_df) =
          [[Some '''', Some '''', Some '''', Some '''', Some '''', Some '''']])"
  by code_simp

text \<open>
  C2 at eight courses and seven days. The claim says that the seven days are seven
  buckets and that the two days named Monday are never merged. The dictionaries of the
  seven labels have six keys, the returned tables six columns, and the courses of
  positions 2 and 7 share the cell under Monday.
\<close>

theorem second_monday_merged:
  "length (slice_to exam_days_all 7) = 7 \<and>
   map fst (new_schedule (slice_to exam_days_all 7)) =
     [''Saturday'', ''Monday'', ''Tuesday'', ''Wednesday'', ''Thursday'', ''Friday''] \<and>
   (case schedule_exams (\<lambda>xs. xs)
           (courses_table [''M0'', ''M1'', ''M2'', ''M3'', ''M4'', ''M5'', ''M6'', ''M7'']) 7 of
      Inl e \<Rightarrow> False
    | Inr (fn_df, an_df) \<Rightarrow>
        columns fn_df = [''Saturday'', ''Monday'', ''Tuesday'', ''Wednesday'', ''Thursday'', ''Friday''] \<and>
        columns an_df = [''Saturday'', ''Monday'', ''Tuesday'', ''Wednesday'', ''Thursday'', ''Friday''] \<and>
        map (\<lambda>r. map r (columns fn_df)) (rows fn_df) =
          [[Some ''M0'', Some ''M2, M7'', Some ''M3'', Some ''M4'', Some ''M5'', Some ''M6'']] \<and>
        map (\<lambda>r. map r (columns an_df)) (rows an_df) =
          [[Some ''M1'', Some '''', Some '''', Some '''', Some '''', Some '''']])"
  by code_simp

text \<open>
  C3 at ten courses and seven days. The claim says that the counts of two days differ by
  at most one and that the first three days hold 2 courses each and the last four 1 each.
  In the schedule that is returned, the courses of positions 2 and 7 are both under
  Monday: read by the seven day positions the counts are 2, 3, 2, 1, 1, 1, 3. Monday
  holds 3 courses (\<^verbatim>\<open>c, j\<close> in the forenoon, \<^verbatim>\<open>d\<close> in the afternoon) and Wednesday 1.
\<close>

theorem ten_courses_counts_unbalanced:
  "(case distribute [''a'', ''b'', ''c'', ''d'', ''e'', ''f'', ''g'', ''h'', ''i'', ''j'']
           (slice_to exam_days_all 7) of
      Inl e \<Rightarrow> False
    | Inr (fn_schedule, an_schedule, course_idx) \<Rightarrow>
        map (\<lambda>day. length (bucket fn_schedule day) + length (bucket an_schedule day))
          (slice_to exam_days_all 7) = [2, 3, 2, 1, 1, 1, 3] \<and>
        bucket fn_schedule ''Monday'' @ bucket an_schedule ''Monday'' = [''c'', ''j'', ''d''] \<and>
        bucket fn_schedule ''Wednesday'' @ bucket an_schedule ''Wednesday'' = [''g'']) \<and>
   (case schedule_exams (\<lambda>xs. xs)
           (courses_table [''a'', ''b'', ''c'', ''d'', ''e'', ''f'', ''g'', ''h'', ''i'', ''j'']) 7 of
      Inl e \<Rightarrow> False
    | Inr (fn_df, an_df) \<Rightarrow>
        columns fn_df = [''Saturday'', ''Monday'', ''Tuesday'', ''Wednesday'', ''Thursday'', ''Friday''] \<and>
        columns an_df = [''Saturday'', ''Monday'', ''Tuesday'', ''Wednesday'', ''Thursday'', ''Friday''] \<and>
        map (\<lambda>r. map r (columns fn_df)) (rows fn_df) =
          [[Some ''a'', Some ''c, j'', Some ''e'', Some ''g'', Some ''h'', Some ''i'']] \<and>
        map (\<lambda>r. map r (columns an_df)) (rows an_df) =
          [[Some ''b'', Some ''d'', Some ''f'', Some '''', Some '''', Some '''']])"
  by code_simp

text \<open>
  C4 at seven courses and seven days. The claim says that on every day of the returned
  schedule the forenoon holds the day's count halved and rounded up and the afternoon
  the rest, so that the two differ by 0 or 1 and a day of 2 courses splits 1 and 1. In the
  schedule that is returned Monday holds 2 courses in the forenoon and none in the
  afternoon.
\<close>

theorem seven_courses_monday_forenoon_only:
  "(case distribute [''K0'', ''K1'', ''K2'', ''K3'', ''K4'', ''K5'', ''K6''] (slice_to exam_days_all 7) of
      Inl e \<Rightarrow> False
    | Inr (fn_schedule, an_schedule, course_idx) \<Rightarrow>
        map (\<lambda>day. (length (bucket fn_schedule day), length (bucket an_schedule day)))
          (slice_to exam_days_all 7) =
          [(1, 0), (2, 0), (1, 0), (1, 0), (1, 0), (1, 0), (2, 0)] \<and>
        bucket fn_schedule ''Monday'' = [''K1'', ''K6''] \<and> bucket an_schedule ''Monday'' = []) \<and>
   (case schedule_exams (\<lambda>xs. xs)
           (courses_table [''K0'', ''K1'', ''K2'', ''K3'', ''K4'', ''K5'', ''K6'']) 7 of
      Inl e \<Rightarrow> False
    | Inr (fn_df, an_df) \<Rightarrow>
        map (\<lambda>r. r ''Monday'') (rows fn_df) = [Some ''K1, K6''] \<and>
        map (\<lambda>r. r ''Monday'') (rows an_df) = [Some ''''])"
  by code_simp

section \<open>Claims on empty inputs and on the number of days\<close>

text \<open>
  C7. When the input holds no course (no present identifier), \<open>schedule_exams\<close> raises
  nothing, whatever the number of days, and returns two tables without any column or row:
  no day holds a course in either session.
\<close>

theorem zero_courses_empty_frames:
  assumes perm: "\<forall>xs. mset (shuffle xs) = mset xs"
    and zero: "dropna (col courses_df ''Course Code'') = []"
  shows "schedule_exams shuffle courses_df num_days = Inr (pd_DataFrame, pd_DataFrame) \<and>
         columns pd_DataFrame = [] \<and> rows pd_DataFrame = [] \<and>
         (\<forall>day. col pd_DataFrame day = [])"
proof -
  have "schedule_exams shuffle courses_df num_days = Inr (pd_DataFrame, pd_DataFrame)"
    by (rule no_courses_early_return [OF perm zero])
  then show ?thesis by (simp add: col_pd_DataFrame) (simp add: pd_DataFrame_def)
qed

theorem zero_courses_empty_frames_witness:
  "schedule_exams (\<lambda>xs. xs) (courses_table []) 7 = Inr (pd_DataFrame, pd_DataFrame) \<and>
   schedule_exams rev \<lparr>columns = [''Course Code'', ''Name''],
      rows = [[''Name'' \<mapsto> ''Algebra'']]\<rparr> 7 = Inr (pd_DataFrame, pd_DataFrame)"
proof -
  have p1: "\<forall>xs::string list. mset ((\<lambda>xs. xs) xs) = mset xs" by simp
  have p2: "\<forall>xs::string list. mset (rev xs) = mset xs" by simp
  have z1: "dropna (col (courses_table []) ''Course Code'') = []"
    by (simp add: col_def courses_table_def)
  have z2: "dropna (col \<lparr>columns = [''Course Code'', ''Name''],
      rows = [[''Name'' \<mapsto> ''Algebra'']]\<rparr> ''Course Code'') = []"
    by (simp add: col_def)
  show ?thesis
    using zero_courses_empty_frames [OF p1 z1, of 7] zero_courses_empty_frames [OF p2 z2, of 7]
    by simp
qed

text \<open>
  C8, as the code has it. A negative \<open>num_days\<close> is not rejected: the slice of the day
  labels counts it from the end. Without any course the two empty tables are returned.
  With at least one course, \<open>num_days \<le> -7\<close> leaves no day and the division by the number
  of days fails; \<open>-7 < num_days < 0\<close> gives a schedule over the first \<open>7 + num_days\<close>
  labels.
\<close>

theorem negative_num_days:
  assumes perm: "\<forall>xs. mset (shuffle xs) = mset xs"
    and neg: "num_days < 0"
  shows "(dropna (col courses_df ''Course Code'') = [] \<longrightarrow>
            schedule_exams shuffle courses_df num_days = Inr (pd_DataFrame, pd_DataFrame)) \<and>
         (''Course Code'' \<in> set (columns courses_df) \<and>
          dropna (col courses_df ''Course Code'') \<noteq> [] \<longrightarrow>
            (num_days \<le> - 7 \<longrightarrow>
               schedule_exams shuffle courses_df num_days = Inl ZeroDivisionError) \<and>
            (- 7 < num_days \<longrightarrow>
               (\<exists>fn_df an_df. schedule_exams shuffle courses_df num_days = Inr (fn_df, an_df) \<and>
                  columns fn_df = take (nat (7 + num_days)) exam_days_all \<and>
                  columns an_df = take (nat (7 + num_days)) exam_days_all)))"
proof (intro conjI impI; (elim conjE)?)
  assume "dropna (col courses_df ''Course Code'') = []"
  then show "schedule_exams shuffle courses_df num_days = Inr (pd_DataFrame, pd_DataFrame)"
    by (rule no_courses_early_return [OF perm])
next
  assume col: "''Course Code'' \<in> set (columns courses_df)"
    and some: "dropna (col courses_df ''Course Code'') \<noteq> []"
    and le: "num_days \<le> - 7"
  have "slice_to exam_days_all num_days = []"
    using le by (simp add: slice_to_def length_exam_days_all)
  then show "schedule_exams shuffle courses_df num_days = Inl ZeroDivisionError"
    using schedule_exams_run [OF perm col some, of num_days] by (simp add: distribute_def)
next
  assume col: "''Course Code'' \<in> set (columns courses_df)"
    and some: "dropna (col courses_df ''Course Code'') \<noteq> []"
    and gt: "- 7 < num_days"
  let ?cl = "shuffle (unique (dropna (col courses_df ''Course Code'')))"
  let ?ds = "slice_to exam_days_all num_days"
  have ds: "?ds = take (nat (7 + num_days)) exam_days_all"
    using neg by (simp add: slice_to_def length_exam_days_all)
  have k: "nat (7 + num_days) \<le> 6" "0 < nat (7 + num_days)" using neg gt by simp_all
  have "length ?ds = nat (7 + num_days)"
    unfolding ds using k(1) by (simp add: length_exam_days_all)
  then have dne: "?ds \<noteq> []" using k(2) by auto
  have dist: "distinct ?ds" unfolding ds by (rule distinct_take_exam_days [OF k(1)])
  from distribute_ok [OF dne, of ?cl] obtain fn an where
    d: "distribute ?cl ?ds = Inr (fn, an, length ?cl)" by blast
  have "schedule_exams shuffle courses_df num_days =
      Inr (DataFrame_of (session_data ?ds fn), DataFrame_of (session_data ?ds an))"
    using schedule_exams_run [OF perm col some, of num_days] by (simp add: d)
  moreover have "columns (DataFrame_of (session_data ?ds fn)) = take (nat (7 + num_days)) exam_days_all"
    "columns (DataFrame_of (session_data ?ds an)) = take (nat (7 + num_days)) exam_days_all"
    using columns_session_frame [OF dist] ds by simp_all
  ultimately show "\<exists>fn_df an_df. schedule_exams shuffle courses_df num_days = Inr (fn_df, an_df) \<and>
             columns fn_df = take (nat (7 + num_days)) exam_days_all \<and>
             columns an_df = take (nat (7 + num_days)) exam_days_all"
    by blast
qed

theorem negative_num_days_witness:
  "schedule_exams (\<lambda>xs. xs) (courses_table []) (- 3) = Inr (pd_DataFrame, pd_DataFrame) \<and>
   schedule_exams (\<lambda>xs. xs) (courses_table [''CS101'']) (- 7) = Inl ZeroDivisionError \<and>
   (\<exists>fn_df an_df. schedule_exams (\<lambda>xs. xs) (courses_table [''CS101'']) (- 2) = Inr (fn_df, an_df) \<and>
      columns fn_df = [''Saturday'', ''Monday'', ''Tuesday'', ''Wednesday'', ''Thursday''] \<and>
      columns an_df = [''Saturday'', ''Monday'', ''Tuesday'', ''Wednesday'', ''Thursday''])"
proof -
  have p: "\<forall>xs::string list. mset ((\<lambda>xs. xs) xs) = mset xs" by simp
  have z: "dropna (col (courses_table []) ''Course Code'') = []"
    by (simp add: courses_table_def col_def)
  have c: "''Course Code'' \<in> set (columns (courses_table [''CS101'']))"
    by (simp add: courses_table_def)
  have s: "dropna (col (courses_table [''CS101'']) ''Course Code'') \<noteq> []"
    by (simp add: courses_table_def col_def)
  have n3: "(- 3 :: int) < 0" and n7: "(- 7 :: int) < 0" and n2: "(- 2 :: int) < 0" by simp_all
  show ?thesis
    using negative_num_days [OF p n3, of "courses_table []"] z
      negative_num_days [OF p n7, of "courses_table [''CS101'']"]
      negative_num_days [OF p n2, of "courses_table [''CS101'']"] c s
    by (simp add: exam_days_all_def)
qed

text \<open>C8 as stated fails: one course and \<open>num_days = -1\<close> give a schedule over six days.\<close>

theorem negative_num_days_counterexample:
  "(case schedule_exams (\<lambda>xs. xs) (courses_table [''CS101'']) (- 1) of
      Inl e \<Rightarrow> False
    | Inr (fn_df, an_df) \<Rightarrow>
        columns fn_df = [''Saturday'', ''Monday'', ''Tuesday'', ''Wednesday'', ''Thursday'', ''Friday''] \<and>
        map (\<lambda>r. map r (columns fn_df)) (rows fn_df) =
          [[Some ''CS101'', Some '''', Some '''', Some '''', Some '''', Some '''']])"
  by code_simp

text \<open>
  C10. A non-empty table without the column \<^verbatim>\<open>Course Code\<close>, or whose identifiers are all
  missing, makes \<open>schedule_exams\<close> return the two empty tables without raising, as the
  empty table does.
\<close>

theorem no_identifiers_like_empty_input:
  assumes perm: "\<forall>xs. mset (shuffle xs) = mset xs"
    and ne: "\<not> df_empty courses_df"
    and none: "''Course Code'' \<notin> set (columns courses_df) \<or>
               list_all (\<lambda>r. r ''Course Code'' = None) (rows courses_df)"
  shows "schedule_exams shuffle courses_df num_days = Inr (pd_DataFrame, pd_DataFrame) \<and>
         schedule_exams shuffle courses_df num_days = schedule_exams shuffle pd_DataFrame num_days"
proof -
  have e: "schedule_exams shuffle pd_DataFrame num_days = Inr (pd_DataFrame, pd_DataFrame)"
    by (simp add: schedule_exams_def df_empty_def pd_DataFrame_def)
  have "schedule_exams shuffle courses_df num_days = Inr (pd_DataFrame, pd_DataFrame)"
  proof (cases "''Course Code'' \<in> set (columns courses_df)")
    case False
    then show ?thesis by (simp add: schedule_exams_def)
  next
    case True
    with none have "list_all (\<lambda>r. r ''Course Code'' = None) (rows courses_df)" by simp
    then have "list_all (\<lambda>c. c = None) (col courses_df ''Course Code'')"
      by (simp add: col_def list_all_iff)
    then have "dropna (col courses_df ''Course Code'') = []" by (rule dropna_all_missing)
    then show ?thesis using shuffle_Nil [OF perm] by (simp add: schedule_exams_def unique_def)
  qed
  with e show ?thesis by simp
qed

theorem no_identifiers_like_empty_input_witness:
  "schedule_exams rev \<lparr>columns = [''Name''], rows = [[''Name'' \<mapsto> ''Algebra'']]\<rparr> 7 =
     Inr (pd_DataFrame, pd_DataFrame) \<and>
   schedule_exams rev \<lparr>columns = [''Course Code'', ''Name''],
      rows = [[''Name'' \<mapsto> ''Algebra''], [''Name'' \<mapsto> ''Logic'']]\<rparr> 7 =
     Inr (pd_DataFrame, pd_DataFrame)"
proof -
  have p: "\<forall>xs::string list. mset (rev xs) = mset xs" by simp
  have n1: "\<not> df_empty \<lparr>columns = [''Name''], rows = [[''Name'' \<mapsto> ''Algebra'']]\<rparr>"
    by (simp add: df_empty_def)
  have n2: "\<not> df_empty \<lparr>columns = [''Course Code'', ''Name''],
      rows = [[''Name'' \<mapsto> ''Algebra''], [''Name'' \<mapsto> ''Logic'']]\<rparr>"
    by (simp add: df_empty_def)
  have c1: "''Course Code'' \<notin> set (columns \<lparr>columns = [''Name''], rows = [[''Name'' \<mapsto> ''Algebra'']]\<rparr>) \<or>
      list_all (\<lambda>r. r ''Course Code'' = None) (rows \<lparr>columns = [''Name''], rows = [[''Name'' \<mapsto> ''Algebra'']]\<rparr>)"
    by simp
  have c2: "''Course Code'' \<notin> set (columns \<lparr>columns = [''Course Code'', ''Name''],
      rows = [[''Name'' \<mapsto> ''Algebra''], [''Name'' \<mapsto> ''Logic'']]\<rparr>) \<or>
      list_all (\<lambda>r. r ''Course Code'' = None) (rows \<lparr>columns = [''Course Code'', ''Name''],
      rows = [[''Name'' \<mapsto> ''Algebra''], [''Name'' \<mapsto> ''Logic'']]\<rparr>)"
    by simp
  show ?thesis
    using no_identifiers_like_empty_input [OF p n1 c1, of 7]
      no_identifiers_like_empty_input [OF p n2 c2, of 7]
    by simp
qed

section \<open>Claims on the aggregator\<close>



text \<open>
  C6 at a department cell that ends with a line feed. The claim says that a row is taken
  for a department only when its department cell equals the department's name. With the
  department CS, the mask takes the row whose cell is CS followed by a line feed, which is
  not equal to CS and of which CS is a proper part; the row reaches the aggregated table
  labelled for CS. The cell CSE is not taken.
\<close>

theorem line_feed_department_matches:
  "contains_anchored ''CS'' (''CS'' @ [CHR 0x0A]) \<and> ''CS'' @ [CHR 0x0A] \<noteq> ''CS'' \<and>
   \<not> contains_anchored ''CS'' ''CSE'' \<and>
   map (\<lambda>r. map r [''Course Code'', ''Department''])
     (rows (department_courses ''CS'' line_feed_table)) =
     [[Some ''X1'', Some (''CS'' @ [CHR 0x0A])], [Some ''X3'', Some ''CS'']] \<and>
   map (\<lambda>r. map r [''Course Code'', ''Department'', ''Dept_Session''])
     (rows (get_all_pre_mid_courses (loader_of line_feed_table) sample_config)) =
     [[Some ''X1'', Some (''CS'' @ [CHR 0x0A]), Some ''CS_Pre-Mid''],
      [Some ''X3'', Some ''CS'', Some ''CS_Pre-Mid'']]"
  by code_simp

text \<open>
  C9, as the code has it. The aggregator does not drop a row whose identifier is missing:
  when the combined table has the column \<^verbatim>\<open>Course Code\<close> its first such row is kept
  (the later ones go as duplicates of it), otherwise all its rows are kept. It is
  \<open>schedule_exams\<close> that drops missing identifiers: with at least one identifier present
  and at least one day, the identifiers in the buckets it builds its tables from are
  exactly the identifiers present in its input.
\<close>

theorem missing_identifier_kept_then_dropped:
  assumes perm: "\<forall>xs. mset (shuffle xs) = mset xs"
    and col: "''Course Code'' \<in> set (columns courses_df)"
    and some: "dropna (col courses_df ''Course Code'') \<noteq> []"
    and days: "slice_to exam_days_all num_days \<noteq> []"
  shows "filter (\<lambda>r. r ''Course Code'' = None) (rows (get_all_pre_mid_courses L C)) =
           (if ''Course Code'' \<in> set (columns (pd_concat (collected_tables L C fst (PRE_MID C)))) then
              (case find (\<lambda>r. r ''Course Code'' = None)
                      (rows (pd_concat (collected_tables L C fst (PRE_MID C)))) of
                 None \<Rightarrow> [] | Some r \<Rightarrow> [r])
            else rows (pd_concat (collected_tables L C fst (PRE_MID C)))) \<and>
         (\<exists>fn_schedule an_schedule.
            distribute (shuffle (unique (dropna (col courses_df ''Course Code''))))
              (slice_to exam_days_all num_days) =
              Inr (fn_schedule, an_schedule,
                   length (shuffle (unique (dropna (col courses_df ''Course Code''))))) \<and>
            schedule_exams shuffle courses_df num_days =
              Inr (DataFrame_of (session_data (slice_to exam_days_all num_days) fn_schedule),
                   DataFrame_of (session_data (slice_to exam_days_all num_days) an_schedule)) \<and>
            set (assigned fn_schedule) \<union> set (assigned an_schedule) =
              {c. Some c \<in> set (col courses_df ''Course Code'')})"
proof -
  let ?tabs = "pd_concat (collected_tables L C fst (PRE_MID C))"
  let ?cl = "shuffle (unique (dropna (col courses_df ''Course Code'')))"
  let ?ds = "slice_to exam_days_all num_days"
  have agg: "filter (\<lambda>r. r ''Course Code'' = None) (rows (get_all_pre_mid_courses L C)) =
           (if ''Course Code'' \<in> set (columns ?tabs) then
              (case find (\<lambda>r. r ''Course Code'' = None) (rows ?tabs) of
                 None \<Rightarrow> [] | Some r \<Rightarrow> [r])
            else rows ?tabs)"
  proof (cases "''Course Code'' \<in> set (columns ?tabs)")
    case True
    then show ?thesis by (simp add: get_all_pre_mid_courses_def session_rows_by_key)
  next
    case False
    have "filter (\<lambda>r. r ''Course Code'' = None) (rows ?tabs) = rows ?tabs"
      using rows_pd_concat_missing [OF False] by (simp add: filter_id_conv)
    then show ?thesis using False by (simp add: get_all_pre_mid_courses_def session_rows_by_key)
  qed
  from distribute_ok [OF days, of ?cl] obtain fn an where
    d: "distribute ?cl ?ds = Inr (fn, an, length ?cl)"
    and m: "mset (assigned fn) + mset (assigned an) = mset ?cl" by blast
  have run: "schedule_exams shuffle courses_df num_days =
      Inr (DataFrame_of (session_data ?ds fn), DataFrame_of (session_data ?ds an))"
    using schedule_exams_run [OF perm col some, of num_days] by (simp add: d)
  have "set_mset (mset (assigned fn) + mset (assigned an)) = set_mset (mset ?cl)"
    using m by simp
  then have "set (assigned fn) \<union> set (assigned an) = set ?cl" by simp
  also have "set ?cl = set (unique (dropna (col courses_df ''Course Code'')))"
    using perm by (metis set_mset_mset)
  also have "\<dots> = {c. Some c \<in> set (col courses_df ''Course Code'')}"
    by (simp add: set_unique set_dropna)
  finally have s: "set (assigned fn) \<union> set (assigned an) =
      {c. Some c \<in> set (col courses_df ''Course Code'')}" .
  show ?thesis using agg d run s by blast
qed

theorem missing_identifier_kept_then_dropped_witness:
  "\<exists>fn_schedule an_schedule.
     schedule_exams rev missing_code_table 7 =
       Inr (DataFrame_of (session_data (slice_to exam_days_all 7) fn_schedule),
            DataFrame_of (session_data (slice_to exam_days_all 7) an_schedule)) \<and>
     set (assigned fn_schedule) \<union> set (assigned an_schedule) = {''MA101''}"
proof -
  have p: "\<forall>xs::string list. mset (rev xs) = mset xs" by simp
  have c: "''Course Code'' \<in> set (columns missing_code_table)"
    by (simp add: missing_code_table_def)
  have s: "dropna (col missing_code_table ''Course Code'') \<noteq> []"
    by (simp add: missing_code_table_def col_def)
  have d: "slice_to exam_days_all 7 \<noteq> []"
    unfolding slice_to_7 by (simp add: exam_days_all_def)
  have e: "{c. Some c \<in> set (col missing_code_table ''Course Code'')} = {''MA101''}"
    by (auto simp: missing_code_table_def col_def)
  show ?thesis
    using missing_identifier_kept_then_dropped [OF p c s d, of "loader_of missing_code_table" sample_config]
    unfolding e by blast
qed

text \<open>
  C9 as stated fails: the aggregator returns the first row without identifier of the
  catalog.
\<close>

theorem missing_identifier_returned:
  "map (\<lambda>r. map r [''Course Code'', ''Name''])
     (rows (get_all_pre_mid_courses (loader_of missing_code_table) sample_config)) =
   [[None, Some ''Algebra''], [Some ''MA101'', Some ''Calculus'']]"
  by code_simp

end
